theory Spec2Isabelle
  imports Complex_Main "HOL-Library.AList"
begin

section \<open>Tables of the accident data\<close>

text \<open>
  Both scripts (\<^verbatim>\<open>dashboard.py\<close> and \<^verbatim>\<open>EDA.py\<close>) work on data frames: named columns
  of equal length. A cell read from a CSV file is a missing value, a text or a number;
  after date parsing a cell can also hold a timestamp. A frame is kept column by column,
  in column order, as the scripts address it (\<^verbatim>\<open>df['Year']\<close>).
\<close>

datatype error =
  KeyError string | ValueError | TypeError | AttributeError | MergeError | IndexError

record timestamp =
  ts_year :: int
  ts_month :: nat
  ts_day :: nat
  ts_hour :: nat
  ts_minute :: nat

datatype cell = NA | Str string | Num int | Stamp timestamp

type_synonym series = "cell list"

type_synonym frame = "(string \<times> series) list"

text \<open>\<^verbatim>\<open>df[c]\<close>: the column named \<open>c\<close>, or a \<^verbatim>\<open>KeyError\<close>.\<close>

definition getitem :: "frame \<Rightarrow> string \<Rightarrow> error + series" where
  "getitem df c = (case map_of df c of None \<Rightarrow> Inl (KeyError c) | Some vs \<Rightarrow> Inr vs)"

text \<open>\<^verbatim>\<open>df[c] = vs\<close>: replaces the column in place, or appends a new last column.\<close>

definition setitem :: "frame \<Rightarrow> string \<Rightarrow> series \<Rightarrow> frame" where
  "setitem df c vs = AList.update c vs df"

text \<open>\<^verbatim>\<open>len(df)\<close>: the number of rows.\<close>

definition len_frame :: "frame \<Rightarrow> nat" where
  "len_frame df = (case df of [] \<Rightarrow> 0 | (c, vs) # rest \<Rightarrow> length vs)"

definition columns :: "frame \<Rightarrow> string list" where
  "columns df = map fst df"

text \<open>A frame read from a file is rectangular: every column has the frame's length.\<close>

definition rect :: "frame \<Rightarrow> bool" where
  "rect df = list_all (\<lambda>(c, vs). length vs = len_frame df) df"

text \<open>The row view of a frame: row \<open>i\<close> pairs every column name with its \<open>i\<close>-th cell.\<close>

definition row_at :: "frame \<Rightarrow> nat \<Rightarrow> (string \<times> cell) list" where
  "row_at df i = map (\<lambda>(c, vs). (c, vs ! i)) df"

definition rows :: "frame \<Rightarrow> (string \<times> cell) list list" where
  "rows df = map (row_at df) [0..<len_frame df]"

text \<open>Sequencing of steps that may raise: the first error ends the run.\<close>

definition and_then :: "error + 'a \<Rightarrow> ('a \<Rightarrow> error + 'b) \<Rightarrow> error + 'b" where
  "and_then r f = (case r of Inl e \<Rightarrow> Inl e | Inr x \<Rightarrow> f x)"

fun each :: "('a \<Rightarrow> error + 'b) \<Rightarrow> 'a list \<Rightarrow> error + 'b list" where
  "each f [] = Inr []"
| "each f (x # xs) =
     (case f x of Inl e \<Rightarrow> Inl e
      | Inr y \<Rightarrow> (case each f xs of Inl e \<Rightarrow> Inl e | Inr ys \<Rightarrow> Inr (y # ys)))"

section \<open>Joiner\<close>

text \<open>
  \<^verbatim>\<open>pd.merge(accidents, bikers, on='Accident_Index', how='inner')\<close>
  (\<^verbatim>\<open>dashboard.py\<close> line 21, \<^verbatim>\<open>EDA.py\<close> line 12). The inner join pairs every left row with
  every right row of the same key, in the order of the left rows. The right key column is
  dropped; a column name that both sides still share gets the suffix \<^verbatim>\<open>_x\<close> on the left
  and \<^verbatim>\<open>_y\<close> on the right, and the library raises when that renaming makes two labels of
  one side collide. Missing keys are equal to each other, as the library joins them.
  Rows are taken by position; the positions are in range because the tables read from the
  two files are rectangular. The library refuses to join a key column of numbers with a
  key column of texts (a column read from a file holds numbers or texts, with missing
  values in either); when exactly one of the key columns is empty it joins without that
  check.
\<close>

definition numeric_column :: "series \<Rightarrow> bool" where
  "numeric_column vs = list_all (\<lambda>c. case c of NA \<Rightarrow> True | Num v \<Rightarrow> True | _ \<Rightarrow> False) vs"

definition text_column :: "series \<Rightarrow> bool" where
  "text_column vs = list_ex (\<lambda>c. case c of Str t \<Rightarrow> True | _ \<Rightarrow> False) vs"

definition mismatched_keys :: "series \<Rightarrow> series \<Rightarrow> bool" where
  "mismatched_keys lk rk =
     (lk \<noteq> [] \<and> rk \<noteq> [] \<and>
      ((numeric_column lk \<and> text_column rk) \<or> (text_column lk \<and> numeric_column rk)))"

definition join_pairs :: "series \<Rightarrow> series \<Rightarrow> (nat \<times> nat) list" where
  "join_pairs lk rk =
     concat (map (\<lambda>i. map (\<lambda>j. (i, j)) (filter (\<lambda>j. lk ! i = rk ! j) [0..<length rk]))
                 [0..<length lk])"

definition take_rows :: "nat list \<Rightarrow> series \<Rightarrow> series" where
  "take_rows idx vs = map (\<lambda>i. vs ! i) idx"

definition with_suffix :: "string list \<Rightarrow> string \<Rightarrow> string \<Rightarrow> string" where
  "with_suffix overlap sfx c = (if c \<in> set overlap then c @ sfx else c)"

definition drop_key :: "string \<Rightarrow> frame \<Rightarrow> frame" where
  "drop_key on right = filter (\<lambda>(c, vs). c \<noteq> on) right"

definition overlap :: "frame \<Rightarrow> frame \<Rightarrow> string \<Rightarrow> string list" where
  "overlap left right on = filter (\<lambda>c. c \<in> set (columns (drop_key on right))) (columns left)"

definition llabels :: "frame \<Rightarrow> frame \<Rightarrow> string \<Rightarrow> string list" where
  "llabels left right on = map (with_suffix (overlap left right on) ''_x'') (columns left)"

definition rlabels :: "frame \<Rightarrow> frame \<Rightarrow> string \<Rightarrow> string list" where
  "rlabels left right on =
     map (with_suffix (overlap left right on) ''_y'') (columns (drop_key on right))"

definition pd_merge :: "frame \<Rightarrow> frame \<Rightarrow> string \<Rightarrow> error + frame" where
  "pd_merge left right on =
     (case map_of left on of
        None \<Rightarrow> Inl (KeyError on)
      | Some lk \<Rightarrow>
         (case map_of right on of
            None \<Rightarrow> Inl (KeyError on)
          | Some rk \<Rightarrow>
             (let pairs = join_pairs lk rk
              in if mismatched_keys lk rk then Inl ValueError
                 else if \<not> distinct (llabels left right on) \<or> \<not> distinct (rlabels left right on)
                 then Inl MergeError
                 else Inr (zip (llabels left right on)
                             (map (\<lambda>(c, vs). take_rows (map fst pairs) vs) left) @
                           zip (rlabels left right on)
                             (map (\<lambda>(c, vs). take_rows (map snd pairs) vs)
                                (drop_key on right))))))"

section \<open>Field Deriver\<close>

text \<open>
  \<^verbatim>\<open>pd.to_datetime\<close> leaves a missing value missing (\<^verbatim>\<open>NaT\<close>) and a timestamp as it is.
  Any other cell goes to the library's parser, which is a parameter here: \<open>parse c\<close> is
  \<open>None\<close> where the library cannot read \<open>c\<close>. With \<^verbatim>\<open>errors='raise'\<close> (the default) a
  cell that cannot be read raises; with \<^verbatim>\<open>errors='coerce'\<close> it becomes \<^verbatim>\<open>NaT\<close>.
\<close>

datatype errors_mode = Raise | Coerce

type_synonym parser = "cell \<Rightarrow> timestamp option"

fun to_datetime_cell :: "parser \<Rightarrow> errors_mode \<Rightarrow> cell \<Rightarrow> error + timestamp option" where
  "to_datetime_cell parse mode NA = Inr None"
| "to_datetime_cell parse mode (Stamp t) = Inr (Some t)"
| "to_datetime_cell parse mode c =
     (case parse c of
        Some t \<Rightarrow> Inr (Some t)
      | None \<Rightarrow> (case mode of Raise \<Rightarrow> Inl ValueError | Coerce \<Rightarrow> Inr None))"

definition to_datetime :: "parser \<Rightarrow> errors_mode \<Rightarrow> series \<Rightarrow> error + timestamp option list" where
  "to_datetime parse mode vs = each (to_datetime_cell parse mode) vs"

text \<open>A datetime column stored in a frame, and the \<^verbatim>\<open>.dt\<close> accessor that reads it back.\<close>

definition stamps :: "timestamp option list \<Rightarrow> series" where
  "stamps ts = map (\<lambda>t. case t of None \<Rightarrow> NA | Some s \<Rightarrow> Stamp s) ts"

fun dt_cell :: "cell \<Rightarrow> error + timestamp option" where
  "dt_cell NA = Inr None"
| "dt_cell (Stamp t) = Inr (Some t)"
| "dt_cell c = Inl AttributeError"

definition dt :: "series \<Rightarrow> error + timestamp option list" where
  "dt vs = each dt_cell vs"

definition dt_year :: "timestamp option list \<Rightarrow> series" where
  "dt_year ts = map (\<lambda>t. case t of None \<Rightarrow> NA | Some s \<Rightarrow> Num (ts_year s)) ts"

definition dt_month :: "timestamp option list \<Rightarrow> series" where
  "dt_month ts = map (\<lambda>t. case t of None \<Rightarrow> NA | Some s \<Rightarrow> Num (int (ts_month s))) ts"

definition dt_hour :: "timestamp option list \<Rightarrow> series" where
  "dt_hour ts = map (\<lambda>t. case t of None \<Rightarrow> NA | Some s \<Rightarrow> Num (int (ts_hour s))) ts"

text \<open>
  \<^verbatim>\<open>.dt.day_name()\<close>: the English weekday name of a calendar date of the Gregorian
  calendar (the day of the week is counted from Sunday, by the month-offset method).
\<close>

definition month_offset :: "nat \<Rightarrow> int" where
  "month_offset m =
     (if m = 1 then 0 else if m = 2 then 3 else if m = 3 then 2 else if m = 4 then 5
      else if m = 5 then 0 else if m = 6 then 3 else if m = 7 then 5 else if m = 8 then 1
      else if m = 9 then 4 else if m = 10 then 6 else if m = 11 then 2 else 4)"

definition day_of_week :: "timestamp \<Rightarrow> nat" where
  "day_of_week t =
     (let y = (if ts_month t < 3 then ts_year t - 1 else ts_year t)
      in nat ((y + y div 4 - y div 100 + y div 400 + month_offset (ts_month t)
               + int (ts_day t)) mod 7))"

definition day_name :: "timestamp \<Rightarrow> string" where
  "day_name t =
     (let d = day_of_week t
      in if d = 0 then ''Sunday'' else if d = 1 then ''Monday'' else if d = 2 then ''Tuesday''
         else if d = 3 then ''Wednesday'' else if d = 4 then ''Thursday''
         else if d = 5 then ''Friday'' else ''Saturday'')"

definition dt_day_name :: "timestamp option list \<Rightarrow> series" where
  "dt_day_name ts = map (\<lambda>t. case t of None \<Rightarrow> NA | Some s \<Rightarrow> Str (day_name s)) ts"

text \<open>
  The derivation step of \<^verbatim>\<open>load_data\<close> (\<^verbatim>\<open>dashboard.py\<close> lines 23 to 27, \<^verbatim>\<open>EDA.py\<close> lines
  14 to 18), one assignment after the other. \<open>pdate\<close> is the library's reading of a date
  cell, \<open>ptime\<close> its reading of a time cell against the format \<^verbatim>\<open>%H:%M\<close>.
\<close>

definition derive :: "parser \<Rightarrow> parser \<Rightarrow> frame \<Rightarrow> error + frame" where
  "derive pdate ptime df =
     and_then (getitem df ''Date'') (\<lambda>raw.
     and_then (to_datetime pdate Raise raw) (\<lambda>parsed.
     let df1 = setitem df ''Date'' (stamps parsed) in
     and_then (getitem df1 ''Date'') (\<lambda>d1.
     and_then (dt d1) (\<lambda>t1.
     let df2 = setitem df1 ''Year'' (dt_year t1) in
     and_then (getitem df2 ''Date'') (\<lambda>d2.
     and_then (dt d2) (\<lambda>t2.
     let df3 = setitem df2 ''Month'' (dt_month t2) in
     and_then (getitem df3 ''Time'') (\<lambda>tm.
     and_then (to_datetime ptime Coerce tm) (\<lambda>t3.
     let df4 = setitem df3 ''Hour'' (dt_hour t3) in
     and_then (getitem df4 ''Date'') (\<lambda>d4.
     and_then (dt d4) (\<lambda>t4.
     Inr (setitem df4 ''Weekday'' (dt_day_name t4))))))))))))"

definition load_data :: "parser \<Rightarrow> parser \<Rightarrow> frame \<Rightarrow> frame \<Rightarrow> error + frame" where
  "load_data pdate ptime accidents bikers =
     and_then (pd_merge accidents bikers ''Accident_Index'') (derive pdate ptime)"

section \<open>Filter Engine\<close>

text \<open>
  The selections of the sidebar (\<^verbatim>\<open>dashboard.py\<close> lines 39 to 69): the two ends of the
  year slider and the values picked in each multiselect.
\<close>

record filters =
  year_range :: "int \<times> int"
  severity :: "cell list"
  gender_filter :: "cell list"
  weather :: "cell list"
  age_groups :: "cell list"

text \<open>
  \<^verbatim>\<open>df['Year'] >= n\<close> and \<^verbatim>\<open>df['Year'] <= n\<close>, cell by cell: a missing value compares
  false, a text or a timestamp against a number raises.
\<close>

fun ge_cell :: "int \<Rightarrow> cell \<Rightarrow> error + bool" where
  "ge_cell n NA = Inr False"
| "ge_cell n (Num v) = Inr (v \<ge> n)"
| "ge_cell n c = Inl TypeError"

fun le_cell :: "int \<Rightarrow> cell \<Rightarrow> error + bool" where
  "le_cell n NA = Inr False"
| "le_cell n (Num v) = Inr (v \<le> n)"
| "le_cell n c = Inl TypeError"

definition ge_series :: "series \<Rightarrow> int \<Rightarrow> error + bool list" where
  "ge_series vs n = each (ge_cell n) vs"

definition le_series :: "series \<Rightarrow> int \<Rightarrow> error + bool list" where
  "le_series vs n = each (le_cell n) vs"

text \<open>\<^verbatim>\<open>s.isin(values)\<close>: membership cell by cell; a missing cell is in a list that holds a
  missing value.\<close>

definition isin :: "series \<Rightarrow> cell list \<Rightarrow> bool list" where
  "isin vs sel = map (\<lambda>c. c \<in> set sel) vs"

text \<open>\<^verbatim>\<open>s == v\<close> and \<^verbatim>\<open>a & b\<close> on columns.\<close>

definition eq_series :: "series \<Rightarrow> cell \<Rightarrow> bool list" where
  "eq_series vs v = map (\<lambda>c. c = v) vs"

definition and_mask :: "bool list \<Rightarrow> bool list \<Rightarrow> bool list" where
  "and_mask a b = map (\<lambda>(x, y). x \<and> y) (zip a b)"

text \<open>\<^verbatim>\<open>df[mask]\<close>: a new frame with the rows whose mask entry is true, in order.\<close>

definition select_rows :: "bool list \<Rightarrow> series \<Rightarrow> series" where
  "select_rows m vs = map snd (filter fst (zip m vs))"

definition getitem_mask :: "frame \<Rightarrow> bool list \<Rightarrow> frame" where
  "getitem_mask df m = map (\<lambda>(c, vs). (c, select_rows m vs)) df"

text \<open>The filter of \<^verbatim>\<open>dashboard.py\<close> lines 71 to 78, its operands evaluated left to right.\<close>

definition filtered :: "filters \<Rightarrow> frame \<Rightarrow> error + frame" where
  "filtered cfg df =
     and_then (getitem df ''Year'') (\<lambda>y1.
     and_then (ge_series y1 (fst (year_range cfg))) (\<lambda>m1.
     and_then (getitem df ''Year'') (\<lambda>y2.
     and_then (le_series y2 (snd (year_range cfg))) (\<lambda>m2.
     and_then (getitem df ''Severity'') (\<lambda>sv.
     and_then (getitem df ''Gender'') (\<lambda>gd.
     and_then (getitem df ''Weather_conditions'') (\<lambda>wt.
     and_then (getitem df ''Age_Grp'') (\<lambda>ag.
     Inr (getitem_mask df
            (and_mask (and_mask (and_mask (and_mask (and_mask m1 m2)
               (isin sv (severity cfg)))
               (isin gd (gender_filter cfg)))
               (isin wt (weather cfg)))
               (isin ag (age_groups cfg))))))))))))"

text \<open>
  What the specification asks of a row, dimension by dimension, read off the row itself.
\<close>

definition year_within :: "filters \<Rightarrow> (string \<times> cell) list \<Rightarrow> bool" where
  "year_within cfg r =
     (case map_of r ''Year'' of
        Some (Num y) \<Rightarrow> fst (year_range cfg) \<le> y \<and> y \<le> snd (year_range cfg)
      | _ \<Rightarrow> False)"

definition selected :: "string \<Rightarrow> cell list \<Rightarrow> (string \<times> cell) list \<Rightarrow> bool" where
  "selected c sel r = (case map_of r c of Some v \<Rightarrow> v \<in> set sel | None \<Rightarrow> False)"

definition satisfies :: "filters \<Rightarrow> (string \<times> cell) list \<Rightarrow> bool" where
  "satisfies cfg r =
     (year_within cfg r \<and> selected ''Severity'' (severity cfg) r
      \<and> selected ''Gender'' (gender_filter cfg) r
      \<and> selected ''Weather_conditions'' (weather cfg) r
      \<and> selected ''Age_Grp'' (age_groups cfg) r)"

text \<open>The columns the filter reads besides \<^verbatim>\<open>Year\<close>.\<close>

definition has_dimensions :: "frame \<Rightarrow> bool" where
  "has_dimensions df =
     list_all (\<lambda>c. c \<in> set (columns df))
       [''Severity'', ''Gender'', ''Weather_conditions'', ''Age_Grp'']"

section \<open>Aggregates\<close>

text \<open>
  \<^verbatim>\<open>s.mean()\<close> skips missing values; it is undefined (\<open>None\<close>, the library's \<^verbatim>\<open>NaN\<close>) when
  nothing is left, and raises on a text or timestamp. Quotients are exact rationals here;
  the rounding of the script's floating-point numbers is not part of the model.
\<close>

fun numeric :: "cell \<Rightarrow> error + int option" where
  "numeric NA = Inr None"
| "numeric (Num v) = Inr (Some v)"
| "numeric c = Inl TypeError"

definition present :: "'a option list \<Rightarrow> 'a list" where
  "present xs = concat (map (\<lambda>x. case x of None \<Rightarrow> [] | Some v \<Rightarrow> [v]) xs)"

definition mean :: "series \<Rightarrow> error + rat option" where
  "mean vs =
     and_then (each numeric vs) (\<lambda>ns.
     let xs = present ns
     in Inr (if xs = [] then None else Some (of_int (sum_list xs) / of_nat (length xs))))"

text \<open>The five metrics of \<^verbatim>\<open>dashboard.py\<close> lines 80 to 94.\<close>

record metrics =
  total :: nat
  fatal :: nat
  serious :: nat
  fatality_rate :: rat
  avg_casualties :: "rat option"

definition count_severity :: "frame \<Rightarrow> string \<Rightarrow> error + nat" where
  "count_severity f s =
     and_then (getitem f ''Severity'') (\<lambda>sv.
     Inr (len_frame (getitem_mask f (eq_series sv (Str s)))))"

definition dashboard_metrics :: "frame \<Rightarrow> error + metrics" where
  "dashboard_metrics f =
     and_then (count_severity f ''Fatal'') (\<lambda>n_fatal.
     and_then (count_severity f ''Serious'') (\<lambda>n_serious.
     let rate = (if len_frame f > 0
                 then of_nat n_fatal / of_nat (len_frame f) * 100 else 0) in
     and_then (if len_frame f > 0
               then and_then (getitem f ''Number_of_Casualties'') mean
               else Inr (Some 0)) (\<lambda>avg.
     Inr \<lparr>total = len_frame f, fatal = n_fatal, serious = n_serious,
          fatality_rate = rate, avg_casualties = avg\<rparr>)))"

text \<open>
  \<^verbatim>\<open>s.value_counts()\<close>: one entry per distinct non-missing value with the number of its
  occurrences, most frequent first. \<^verbatim>\<open>.reindex(order)\<close> with no fill value: one entry per
  label of \<open>order\<close>, undefined (\<open>None\<close>, the library's \<^verbatim>\<open>NaN\<close>) for a label that the
  counts do not have.
\<close>

definition unique :: "series \<Rightarrow> series" where
  "unique vs = rev (remdups (rev vs))"

definition value_counts :: "series \<Rightarrow> (cell \<times> nat) list" where
  "value_counts vs =
     sort_key (\<lambda>(k, n). - int n)
       (map (\<lambda>k. (k, count_list vs k)) (unique (filter (\<lambda>c. c \<noteq> NA) vs)))"

definition reindex :: "(cell \<times> nat) list \<Rightarrow> cell list \<Rightarrow> (cell \<times> nat option) list" where
  "reindex counts order = map (\<lambda>k. (k, map_of counts k)) order"

definition severity_order :: "cell list" where
  "severity_order = [Str ''Fatal'', Str ''Serious'', Str ''Slight'']"

definition day_order :: "cell list" where
  "day_order = [Str ''Monday'', Str ''Tuesday'', Str ''Wednesday'', Str ''Thursday'',
                Str ''Friday'', Str ''Saturday'', Str ''Sunday'']"

text \<open>\<^verbatim>\<open>EDA.py\<close> line 67 and \<^verbatim>\<open>dashboard.py\<close> line 135.\<close>

definition severity_counts :: "frame \<Rightarrow> error + (cell \<times> nat option) list" where
  "severity_counts df =
     and_then (getitem df ''Severity'') (\<lambda>s. Inr (reindex (value_counts s) severity_order))"

definition weekday :: "frame \<Rightarrow> error + (cell \<times> nat option) list" where
  "weekday f =
     and_then (getitem f ''Weekday'') (\<lambda>s. Inr (reindex (value_counts s) day_order))"

text \<open>
  The bar labels of \<^verbatim>\<open>EDA.py\<close> lines 69 to 76: every bar's height, one per label of the
  reindexed severity counts, is converted with \<^verbatim>\<open>int\<close>, which raises on an undefined height.
\<close>

definition bar_label :: "cell \<times> nat option \<Rightarrow> error + int" where
  "bar_label bar = (case snd bar of None \<Rightarrow> Inl ValueError | Some n \<Rightarrow> Inr (int n))"

definition severity_bar_labels :: "frame \<Rightarrow> error + int list" where
  "severity_bar_labels df = and_then (severity_counts df) (each bar_label)"

text \<open>
  \<^verbatim>\<open>df.groupby(c).size()\<close>: one entry per distinct non-missing key with the number of its
  rows, in ascending order of the keys. The columns grouped below, \<^verbatim>\<open>Hour\<close> and \<^verbatim>\<open>Month\<close>, are
  written by the derivation and hold numbers and missing values; a key of another kind is
  outside this definition and returned as an error.
\<close>

definition groupby_size :: "series \<Rightarrow> error + (int \<times> nat) list" where
  "groupby_size vs =
     and_then (each numeric vs) (\<lambda>ns.
     let ks = present ns in Inr (map (\<lambda>k. (k, count_list ks k)) (sort (remdups ks))))"

text \<open>
  \<^verbatim>\<open>s.idxmax()\<close> and \<^verbatim>\<open>s.idxmin()\<close>: the label of the first largest (smallest) entry; both
  raise \<^verbatim>\<open>ValueError\<close> on a series without entries.
\<close>

fun first_best :: "(nat \<Rightarrow> nat \<Rightarrow> bool) \<Rightarrow> 'k \<times> nat \<Rightarrow> ('k \<times> nat) list \<Rightarrow> 'k" where
  "first_best better best [] = fst best"
| "first_best better best (x # xs) =
     first_best better (if better (snd x) (snd best) then x else best) xs"

definition idxmax :: "('k \<times> nat) list \<Rightarrow> error + 'k" where
  "idxmax s = (case s of [] \<Rightarrow> Inl ValueError | x # xs \<Rightarrow> Inr (first_best (\<lambda>a b. a > b) x xs))"

definition idxmin :: "('k \<times> nat) list \<Rightarrow> error + 'k" where
  "idxmin s = (case s of [] \<Rightarrow> Inl ValueError | x # xs \<Rightarrow> Inr (first_best (\<lambda>a b. a < b) x xs))"

text \<open>\<^verbatim>\<open>month_names[k]\<close>: a list read at a position, from the end when \<open>k\<close> is below zero.\<close>

definition py_index :: "'a list \<Rightarrow> int \<Rightarrow> error + 'a" where
  "py_index xs i =
     (if 0 \<le> i \<and> i < int (length xs) then Inr (xs ! nat i)
      else if i < 0 \<and> - int (length xs) \<le> i then Inr (xs ! nat (int (length xs) + i))
      else Inl IndexError)"

definition month_names :: "string list" where
  "month_names = [''Jan'', ''Feb'', ''Mar'', ''Apr'', ''May'', ''Jun'',
                  ''Jul'', ''Aug'', ''Sep'', ''Oct'', ''Nov'', ''Dec'']"

text \<open>
  The dictionary \<^verbatim>\<open>patterns\<close> of \<^verbatim>\<open>dashboard.py\<close> lines 413 to 419, its four entries
  evaluated in order on the filtered table (the peak hour is kept as the number, before it
  is formatted).
\<close>

record patterns =
  peak_hour :: int
  peak_month :: string
  peak_day :: cell
  safest_day :: cell

definition time_patterns :: "frame \<Rightarrow> error + patterns" where
  "time_patterns f =
     and_then (getitem f ''Hour'') (\<lambda>hs.
     and_then (groupby_size hs) (\<lambda>by_hour.
     and_then (idxmax by_hour) (\<lambda>h.
     and_then (getitem f ''Month'') (\<lambda>ms.
     and_then (groupby_size ms) (\<lambda>by_month.
     and_then (idxmax by_month) (\<lambda>m.
     and_then (py_index month_names (m - 1)) (\<lambda>mn.
     and_then (getitem f ''Weekday'') (\<lambda>w1.
     and_then (idxmax (value_counts w1)) (\<lambda>pd.
     and_then (getitem f ''Weekday'') (\<lambda>w2.
     and_then (idxmin (value_counts w2)) (\<lambda>sd.
     Inr \<lparr>peak_hour = h, peak_month = mn, peak_day = pd, safest_day = sd\<rparr>)))))))))))"

section \<open>Worked inputs\<close>

text \<open>
  Two parsers for the examples below, each narrower than the library's (which also reads
  other spellings) and used only on texts that both read alike: calendar dates written
  \<^verbatim>\<open>YYYY-MM-DD\<close>, and times written \<^verbatim>\<open>HH:MM\<close> with two digits each (a time is read on
  the date 1900-01-01, as the library does).
\<close>

definition digit :: "char \<Rightarrow> nat option" where
  "digit c = (let n = (of_char c :: nat) in if 48 \<le> n \<and> n \<le> 57 then Some (n - 48) else None)"

fun number :: "nat \<Rightarrow> string \<Rightarrow> nat option" where
  "number acc [] = Some acc"
| "number acc (c # cs) =
     (case digit c of None \<Rightarrow> None | Some d \<Rightarrow> number (10 * acc + d) cs)"

definition leap :: "nat \<Rightarrow> bool" where
  "leap y = (y mod 4 = 0 \<and> (y mod 100 \<noteq> 0 \<or> y mod 400 = 0))"

definition days_in_month :: "nat \<Rightarrow> nat \<Rightarrow> nat" where
  "days_in_month y m =
     (if m = 2 then (if leap y then 29 else 28)
      else if m = 4 \<or> m = 6 \<or> m = 9 \<or> m = 11 then 30 else 31)"

definition iso_date :: parser where
  "iso_date c =
     (case c of
        Str s \<Rightarrow>
          (if length s = 10 \<and> s ! 4 = CHR ''-'' \<and> s ! 7 = CHR ''-''
           then (case (number 0 (take 4 s), number 0 (take 2 (drop 5 s)), number 0 (drop 8 s)) of
                   (Some y, Some m, Some d) \<Rightarrow>
                     (if 1 \<le> m \<and> m \<le> 12 \<and> 1 \<le> d \<and> d \<le> days_in_month y m
                      then Some \<lparr>ts_year = int y, ts_month = m, ts_day = d,
                                 ts_hour = 0, ts_minute = 0\<rparr>
                      else None)
                 | _ \<Rightarrow> None)
           else None)
      | _ \<Rightarrow> None)"

definition hh_mm :: parser where
  "hh_mm c =
     (case c of
        Str s \<Rightarrow>
          (if length s = 5 \<and> s ! 2 = CHR '':''
           then (case (number 0 (take 2 s), number 0 (drop 3 s)) of
                   (Some h, Some m) \<Rightarrow>
                     (if h \<le> 23 \<and> m \<le> 59
                      then Some \<lparr>ts_year = 1900, ts_month = 1, ts_day = 1,
                                 ts_hour = h, ts_minute = m\<rparr>
                      else None)
                 | _ \<Rightarrow> None)
           else None)
      | _ \<Rightarrow> None)"

text \<open>Three accidents and three bikers; accident \<^verbatim>\<open>A2\<close> has no biker, biker \<^verbatim>\<open>A9\<close> no accident.\<close>

definition accidents_fx :: frame where
  "accidents_fx =
     [(''Accident_Index'', [Str ''A1'', Str ''A2'', Str ''A3'']),
      (''Date'', [Str ''2009-05-01'', Str ''2010-01-01'', Str ''2011-03-04'']),
      (''Time'', [Str ''08:30'', Str ''17:05'', Str ''late'']),
      (''Severity'', [Str ''Fatal'', Str ''Serious'', Str ''Slight'']),
      (''Weather_conditions'', [Str ''Clear'', Str ''Rain'', NA]),
      (''Number_of_Casualties'', [Num 1, Num 2, Num 1])]"

definition bikers_fx :: frame where
  "bikers_fx =
     [(''Accident_Index'', [Str ''A3'', Str ''A1'', Str ''A9'']),
      (''Gender'', [Str ''Male'', Str ''Female'', Str ''Male'']),
      (''Age_Grp'', [Str ''26 to 35'', Str ''16 to 20'', NA])]"

definition merged_fx :: frame where
  "merged_fx =
     [(''Accident_Index'', [Str ''A1'', Str ''A3'']),
      (''Date'', [Str ''2009-05-01'', Str ''2011-03-04'']),
      (''Time'', [Str ''08:30'', Str ''late'']),
      (''Severity'', [Str ''Fatal'', Str ''Slight'']),
      (''Weather_conditions'', [Str ''Clear'', NA]),
      (''Number_of_Casualties'', [Num 1, Num 1]),
      (''Gender'', [Str ''Female'', Str ''Male'']),
      (''Age_Grp'', [Str ''16 to 20'', Str ''26 to 35''])]"

section \<open>Auxiliary notions for the proofs\<close>

text \<open>The positions at which a mask is true.\<close>

definition trues :: "bool list \<Rightarrow> nat list" where
  "trues m = filter (\<lambda>i. m ! i) [0..<length m]"

text \<open>The frame that the derivation step returns, given the parsed dates and times.\<close>

definition derived :: "frame \<Rightarrow> timestamp option list \<Rightarrow> timestamp option list \<Rightarrow> frame" where
  "derived df parsed clock =
     setitem (setitem (setitem (setitem (setitem df ''Date'' (stamps parsed))
       ''Year'' (dt_year parsed)) ''Month'' (dt_month parsed)) ''Hour'' (dt_hour clock))
       ''Weekday'' (dt_day_name parsed)"

text \<open>The four categorical dimensions of the filter with their selections.\<close>

definition dimensions :: "filters \<Rightarrow> (string \<times> cell list) list" where
  "dimensions cfg =
     [(''Severity'', severity cfg), (''Gender'', gender_filter cfg),
      (''Weather_conditions'', weather cfg), (''Age_Grp'', age_groups cfg)]"

text \<open>The canonical table of the worked input, and a selection of filters on it.\<close>

definition canonical_fx :: frame where
  "canonical_fx =
     [(''Accident_Index'', [Str ''A1'', Str ''A3'']),
      (''Date'', [Stamp \<lparr>ts_year = 2009, ts_month = 5, ts_day = 1, ts_hour = 0, ts_minute = 0\<rparr>,
                  Stamp \<lparr>ts_year = 2011, ts_month = 3, ts_day = 4, ts_hour = 0, ts_minute = 0\<rparr>]),
      (''Time'', [Str ''08:30'', Str ''late'']),
      (''Severity'', [Str ''Fatal'', Str ''Slight'']),
      (''Weather_conditions'', [Str ''Clear'', NA]),
      (''Number_of_Casualties'', [Num 1, Num 1]),
      (''Gender'', [Str ''Female'', Str ''Male'']),
      (''Age_Grp'', [Str ''16 to 20'', Str ''26 to 35'']),
      (''Year'', [Num 2009, Num 2011]),
      (''Month'', [Num 5, Num 3]),
      (''Hour'', [Num 8, NA]),
      (''Weekday'', [Str ''Friday'', Str ''Friday''])]"

definition all_fx :: filters where
  "all_fx = \<lparr>year_range = (2009, 2010),
             severity = [Str ''Fatal'', Str ''Serious'', Str ''Slight''],
             gender_filter = [Str ''Male'', Str ''Female''],
             weather = [Str ''Clear'', Str ''Rain''],
             age_groups = [Str ''16 to 20'', Str ''26 to 35'']\<rparr>"

text \<open>
  A cell that the parser cannot read (it raises under \<^verbatim>\<open>errors='raise'\<close>), the reading of a
  cell under \<^verbatim>\<open>errors='coerce'\<close>, and the columns that the derivation step writes.
\<close>

definition unreadable :: "parser \<Rightarrow> cell \<Rightarrow> bool" where
  "unreadable p c = (to_datetime_cell p Raise c = Inl ValueError)"



text \<open>
  More worked inputs: a selection with no severity picked, a source whose third date is not
  a date, a source whose third date is missing, and the canonical table of the latter.
\<close>

definition none_fx :: filters where
  "none_fx = \<lparr>year_range = (2009, 2011),
             severity = [],
             gender_filter = [Str ''Male'', Str ''Female''],
             weather = [Str ''Clear'', Str ''Rain''],
             age_groups = [Str ''16 to 20'', Str ''26 to 35'']\<rparr>"


definition accidents_gap_fx :: frame where
  "accidents_gap_fx =
     [(''Accident_Index'', [Str ''A1'', Str ''A2'', Str ''A3'']),
      (''Date'', [Str ''2009-05-01'', Str ''2010-01-01'', NA]),
      (''Time'', [Str ''08:30'', Str ''17:05'', Str ''late'']),
      (''Severity'', [Str ''Fatal'', Str ''Serious'', Str ''Slight'']),
      (''Weather_conditions'', [Str ''Clear'', Str ''Rain'', NA]),
      (''Number_of_Casualties'', [Num 1, Num 2, Num 1])]"

definition canonical_gap_fx :: frame where
  "canonical_gap_fx =
     [(''Accident_Index'', [Str ''A1'', Str ''A3'']),
      (''Date'', [Stamp \<lparr>ts_year = 2009, ts_month = 5, ts_day = 1, ts_hour = 0, ts_minute = 0\<rparr>,
                  NA]),
      (''Time'', [Str ''08:30'', Str ''late'']),
      (''Severity'', [Str ''Fatal'', Str ''Slight'']),
      (''Weather_conditions'', [Str ''Clear'', NA]),
      (''Number_of_Casualties'', [Num 1, Num 1]),
      (''Gender'', [Str ''Female'', Str ''Male'']),
      (''Age_Grp'', [Str ''16 to 20'', Str ''26 to 35'']),
      (''Year'', [Num 2009, NA]),
      (''Month'', [Num 5, NA]),
      (''Hour'', [Num 8, NA]),
      (''Weekday'', [Str ''Friday'', NA])]"


text \<open>
  The entry that reindexing gives a label \<open>k\<close> over the counts of a column: the number of
  occurrences of \<open>k\<close> when it occurs, no value otherwise.
\<close>

definition expected_counts :: "series \<Rightarrow> cell \<Rightarrow> nat option" where
  "expected_counts vs k = (if k \<in> set vs \<and> k \<noteq> NA then Some (count_list vs k) else None)"

text \<open>The table that the filter returns on the worked input when no severity is selected.\<close>

definition empty_fx :: frame where
  "empty_fx =
     [(''Accident_Index'', []), (''Date'', []), (''Time'', []), (''Severity'', []),
      (''Weather_conditions'', []), (''Number_of_Casualties'', []), (''Gender'', []),
      (''Age_Grp'', []), (''Year'', []), (''Month'', []), (''Hour'', []), (''Weekday'', [])]"

text \<open>
  The names that the join gives the columns, written out: a left column other than the key
  whose name the right table also has gets \<^verbatim>\<open>_x\<close>, a right column whose name the left table
  also has gets \<^verbatim>\<open>_y\<close>.
\<close>

definition suffixed_left :: "frame \<Rightarrow> string \<Rightarrow> string \<Rightarrow> string" where
  "suffixed_left right on c = (if c \<noteq> on \<and> c \<in> set (columns right) then c @ ''_x'' else c)"

definition suffixed_right :: "frame \<Rightarrow> string \<Rightarrow> string" where
  "suffixed_right left c = (if c \<in> set (columns left) then c @ ''_y'' else c)"

text \<open>
  Sources with missing accident identifiers on both sides, and sources that share the
  column \<^verbatim>\<open>Day\<close> and repeat a key, with their join.
\<close>

definition accidents_nokey_fx :: frame where
  "accidents_nokey_fx =
     [(''Accident_Index'', [Str ''A1'', NA]),
      (''Severity'', [Str ''Fatal'', Str ''Slight''])]"

definition bikers_nokey_fx :: frame where
  "bikers_nokey_fx =
     [(''Accident_Index'', [NA, Str ''A1'', NA]),
      (''Gender'', [Str ''Male'', Str ''Female'', Str ''Other''])]"

definition accidents_day_fx :: frame where
  "accidents_day_fx =
     [(''Accident_Index'', [Str ''A1'', Str ''A2'']),
      (''Day'', [Num 5, Num 6])]"

definition bikers_day_fx :: frame where
  "bikers_day_fx =
     [(''Accident_Index'', [Str ''A2'', Str ''A1'', Str ''A2'']),
      (''Day'', [Num 7, Num 8, Num 9]),
      (''Gender'', [Str ''Male'', Str ''Female'', Str ''Other''])]"

definition merged_day_fx :: frame where
  "merged_day_fx =
     [(''Accident_Index'', [Str ''A1'', Str ''A2'', Str ''A2'']),
      (''Day_x'', [Num 5, Num 6, Num 6]),
      (''Day_y'', [Num 8, Num 7, Num 9]),
      (''Gender'', [Str ''Female'', Str ''Male'', Str ''Other''])]"

section \<open>Properties of the Joiner\<close>

lemma map_of_relabel:
  assumes "\<And>c. f c = k \<longleftrightarrow> c = k"
  shows "map_of (zip (map f (map fst df)) (map (\<lambda>(c, vs). h vs) df)) k = map_option h (map_of df k)"
proof (induction df)
  case Nil
  then show ?case by simp
next
  case (Cons p df)
  obtain c vs where p: "p = (c, vs)" by (cases p)
  show ?case using Cons assms [of c] by (cases "c = k") (auto simp: p)
qed

lemma with_suffix_key:
  assumes "sfx = ''_x'' \<or> sfx = ''_y''" "''Accident_Index'' \<notin> set ov"
  shows "with_suffix ov sfx c = ''Accident_Index'' \<longleftrightarrow> c = ''Accident_Index''"
proof -
  have "c @ sfx \<noteq> ''Accident_Index''"
  proof
    assume "c @ sfx = ''Accident_Index''"
    then have "rev (c @ sfx) = rev ''Accident_Index''" by simp
    then show False using assms(1) by auto
  qed
  then show ?thesis using assms(2) by (auto simp: with_suffix_def)
qed

lemma key_not_overlap: "on \<notin> set (overlap left right on)"
  by (auto simp: overlap_def drop_key_def columns_def)

lemma join_pairs_sound:
  assumes "(i, j) \<in> set (join_pairs lk rk)"
  shows "i < length lk \<and> j < length rk \<and> lk ! i = rk ! j"
  using assms by (auto simp: join_pairs_def)

lemma merge_key_column:
  assumes "pd_merge left right ''Accident_Index'' = Inr out"
  shows "\<exists>lk rk. map_of left ''Accident_Index'' = Some lk \<and> map_of right ''Accident_Index'' = Some rk
           \<and> map_of out ''Accident_Index'' = Some (take_rows (map fst (join_pairs lk rk)) lk)"
proof -
  let ?k = "''Accident_Index''"
  from assms obtain lk rk where lk: "map_of left ?k = Some lk" and rk: "map_of right ?k = Some rk"
    and out: "out = zip (llabels left right ?k)
                       (map (\<lambda>(c, vs). take_rows (map fst (join_pairs lk rk)) vs) left) @
                    zip (rlabels left right ?k)
                       (map (\<lambda>(c, vs). take_rows (map snd (join_pairs lk rk)) vs) (drop_key ?k right))"
    by (auto simp: pd_merge_def Let_def split: option.splits if_splits)
  have "map_of (zip (llabels left right ?k)
                       (map (\<lambda>(c, vs). take_rows (map fst (join_pairs lk rk)) vs) left)) ?k
        = map_option (take_rows (map fst (join_pairs lk rk))) (map_of left ?k)"
    unfolding llabels_def columns_def
    by (rule map_of_relabel) (simp add: with_suffix_key key_not_overlap)
  then show ?thesis using lk rk by (simp add: out)
qed

lemma map_of_row_at: "map_of (row_at df i) c = map_option (\<lambda>vs. vs ! i) (map_of df c)"
  by (induction df) (auto simp: row_at_def)

lemma merge_columns:
  assumes "pd_merge left right on = Inr out"
  shows "columns out = llabels left right on @ rlabels left right on
         \<and> distinct (llabels left right on) \<and> distinct (rlabels left right on)"
  using assms
  by (auto simp: pd_merge_def Let_def columns_def llabels_def rlabels_def
           split: option.splits if_splits)

lemma merge_len:
  assumes "pd_merge left right on = Inr out" "map_of left on = Some lk" "map_of right on = Some rk"
  shows "len_frame out = length (join_pairs lk rk)"
proof -
  from assms(2) obtain p rest where "left = p # rest" by (cases left) auto
  then show ?thesis using assms
    by (auto simp: pd_merge_def Let_def len_frame_def llabels_def columns_def take_rows_def
             split: option.splits if_splits prod.splits)
qed

lemma count_list_distinct: "distinct xs \<Longrightarrow> x \<in> set xs \<Longrightarrow> count_list xs x = 1"
  by (induction xs) auto

section \<open>Properties of the Field Deriver and the Filter Engine\<close>

lemma each_Inr_D: "each f xs = Inr ys \<Longrightarrow> list_all2 (\<lambda>x y. f x = Inr y) xs ys"
  by (induction xs arbitrary: ys) (auto split: sum.splits)

lemma each_Inr_I: "list_all2 (\<lambda>x y. f x = Inr y) xs ys \<Longrightarrow> each f xs = Inr ys"
  by (induction rule: list_all2_induct) auto


lemma each_total: "(\<And>x. x \<in> set xs \<Longrightarrow> \<exists>y. f x = Inr y) \<Longrightarrow> \<exists>ys. each f xs = Inr ys"
  by (induction xs) (fastforce split: sum.splits)+

lemma zip_as_map: "length xs = length ys \<Longrightarrow> zip xs ys = map (\<lambda>i. (xs ! i, ys ! i)) [0..<length xs]"
  by (rule nth_equalityI) auto

lemma select_rows_nth: "length m = length vs \<Longrightarrow> select_rows m vs = map (\<lambda>i. vs ! i) (trues m)"
  by (simp add: select_rows_def zip_as_map trues_def filter_map comp_def)

lemma map_nth_idx: "map (\<lambda>k. f (xs ! k)) [0..<length xs] = map f xs"
  by (rule nth_equalityI) auto

lemma len_getitem_mask:
  "df \<noteq> [] \<Longrightarrow> rect df \<Longrightarrow> length m = len_frame df \<Longrightarrow> len_frame (getitem_mask df m) = length (trues m)"
  by (cases df) (auto simp: len_frame_def getitem_mask_def rect_def select_rows_nth)

lemma row_at_getitem_mask:
  assumes "rect df" "length m = len_frame df" "k < length (trues m)"
  shows "row_at (getitem_mask df m) k = row_at df (trues m ! k)"
  using assms
  by (auto simp: row_at_def getitem_mask_def rect_def list_all_iff select_rows_nth)

lemma rows_getitem_mask:
  assumes "df \<noteq> []" "rect df" "length m = len_frame df"
  shows "rows (getitem_mask df m) = map (row_at df) (trues m)"
proof -
  have "rows (getitem_mask df m) = map (\<lambda>k. row_at df (trues m ! k)) [0..<length (trues m)]"
    using assms by (simp add: rows_def len_getitem_mask row_at_getitem_mask)
  then show ?thesis by (simp add: map_nth_idx)
qed

lemma filter_rows:
  "filter P (rows df) = map (row_at df) (filter (\<lambda>i. P (row_at df i)) [0..<len_frame df])"
  by (simp add: rows_def filter_map comp_def)

lemma rows_getitem_mask_filter:
  assumes "df \<noteq> []" "rect df" "length m = len_frame df"
    and "\<And>i. i < len_frame df \<Longrightarrow> m ! i = P (row_at df i)"
  shows "rows (getitem_mask df m) = filter P (rows df)"
proof -
  have "trues m = filter (\<lambda>i. P (row_at df i)) [0..<len_frame df]"
    unfolding trues_def using assms(3,4) by (auto intro: filter_cong)
  then show ?thesis using assms by (simp add: rows_getitem_mask filter_rows)
qed

lemma column_present: "c \<in> set (columns df) \<Longrightarrow> \<exists>vs. map_of df c = Some vs"
  by (cases "map_of df c") (auto simp: columns_def map_of_eq_None_iff)

lemma rect_column_length: "rect df \<Longrightarrow> map_of df c = Some vs \<Longrightarrow> length vs = len_frame df"
  by (auto simp: rect_def list_all_iff dest!: map_of_SomeD)

lemma and_mask_nth: "i < length a \<Longrightarrow> i < length b \<Longrightarrow> and_mask a b ! i = (a ! i \<and> b ! i)"
  by (simp add: and_mask_def)

lemma length_and_mask: "length (and_mask a b) = min (length a) (length b)"
  by (simp add: and_mask_def)

lemma ge_mask_nth:
  assumes "ge_series ys n = Inr m" "i < length ys"
  shows "length m = length ys \<and> ge_cell n (ys ! i) = Inr (m ! i)"
  using each_Inr_D [OF assms(1) [unfolded ge_series_def]] assms(2)
  by (auto simp: list_all2_conv_all_nth)

lemma le_mask_nth:
  assumes "le_series ys n = Inr m" "i < length ys"
  shows "length m = length ys \<and> le_cell n (ys ! i) = Inr (m ! i)"
  using each_Inr_D [OF assms(1) [unfolded le_series_def]] assms(2)
  by (auto simp: list_all2_conv_all_nth)

lemma ge_series_total:
  assumes "\<And>c. c \<in> set ys \<Longrightarrow> c = NA \<or> (\<exists>v. c = Num v)"
  shows "\<exists>m. ge_series ys n = Inr m \<and> length m = length ys"
proof -
  have "\<exists>m. each (ge_cell n) ys = Inr m"
  proof (rule each_total)
    fix c assume "c \<in> set ys"
    from assms [OF this] show "\<exists>b. ge_cell n c = Inr b" by auto
  qed
  then obtain m where m: "each (ge_cell n) ys = Inr m" ..
  from each_Inr_D [OF m] have "length m = length ys" by (simp add: list_all2_lengthD)
  with m show ?thesis by (simp add: ge_series_def)
qed

lemma le_series_total:
  assumes "\<And>c. c \<in> set ys \<Longrightarrow> c = NA \<or> (\<exists>v. c = Num v)"
  shows "\<exists>m. le_series ys n = Inr m \<and> length m = length ys"
proof -
  have "\<exists>m. each (le_cell n) ys = Inr m"
  proof (rule each_total)
    fix c assume "c \<in> set ys"
    from assms [OF this] show "\<exists>b. le_cell n c = Inr b" by auto
  qed
  then obtain m where m: "each (le_cell n) ys = Inr m" ..
  from each_Inr_D [OF m] have "length m = length ys" by (simp add: list_all2_lengthD)
  with m show ?thesis by (simp add: le_series_def)
qed

lemma year_within_row:
  assumes "map_of df ''Year'' = Some ys" "ge_cell (fst (year_range cfg)) (ys ! i) = Inr a"
    "le_cell (snd (year_range cfg)) (ys ! i) = Inr b"
  shows "year_within cfg (row_at df i) = (a \<and> b)"
  using assms by (cases "ys ! i") (auto simp: year_within_def map_of_row_at)

lemma selected_row:
  assumes "map_of df c = Some vs" "i < length vs"
  shows "selected c sel (row_at df i) = (isin vs sel ! i)"
  using assms by (simp add: selected_def map_of_row_at isin_def)

lemma filtered_rows:
  assumes r: "rect df" and y: "map_of df ''Year'' = Some ys"
    and num: "\<And>c. c \<in> set ys \<Longrightarrow> c = NA \<or> (\<exists>v. c = Num v)"
    and dims: "has_dimensions df"
  shows "\<exists>out. filtered cfg df = Inr out \<and> rows out = filter (satisfies cfg) (rows df)
           \<and> columns out = columns df"
proof -
  let ?n = "len_frame df"
  from y have ne: "df \<noteq> []" by auto
  have ly: "length ys = ?n" using r y by (rule rect_column_length)
  from ge_series_total [OF num] obtain m1
    where m1: "ge_series ys (fst (year_range cfg)) = Inr m1" and l1: "length m1 = ?n"
    using ly by metis
  from le_series_total [OF num] obtain m2
    where m2: "le_series ys (snd (year_range cfg)) = Inr m2" and l2: "length m2 = ?n"
    using ly by metis
  from dims obtain sv gd wt ag where
    sv: "map_of df ''Severity'' = Some sv" and gd: "map_of df ''Gender'' = Some gd" and
    wt: "map_of df ''Weather_conditions'' = Some wt" and ag: "map_of df ''Age_Grp'' = Some ag"
    unfolding has_dimensions_def by (auto dest!: column_present)
  have lens: "length sv = ?n" "length gd = ?n" "length wt = ?n" "length ag = ?n"
    using r sv gd wt ag by (auto dest: rect_column_length)
  let ?m = "and_mask (and_mask (and_mask (and_mask (and_mask m1 m2)
               (isin sv (severity cfg))) (isin gd (gender_filter cfg)))
               (isin wt (weather cfg))) (isin ag (age_groups cfg))"
  have out: "filtered cfg df = Inr (getitem_mask df ?m)"
    by (simp add: filtered_def and_then_def getitem_def y m1 m2 sv gd wt ag)
  have lm: "length ?m = ?n"
    by (simp add: length_and_mask l1 l2 lens isin_def)
  have "?m ! i = satisfies cfg (row_at df i)" if i: "i < ?n" for i
  proof -
    from ge_mask_nth [OF m1] i ly have g: "ge_cell (fst (year_range cfg)) (ys ! i) = Inr (m1 ! i)"
      by simp
    from le_mask_nth [OF m2] i ly have l: "le_cell (snd (year_range cfg)) (ys ! i) = Inr (m2 ! i)"
      by simp
    have yw: "year_within cfg (row_at df i) = (m1 ! i \<and> m2 ! i)"
      using y g l by (rule year_within_row)
    show ?thesis
      using i by (simp add: satisfies_def yw and_mask_nth length_and_mask l1 l2 lens isin_def
          selected_row [OF sv] selected_row [OF gd] selected_row [OF wt] selected_row [OF ag])
  qed
  then have "rows (getitem_mask df ?m) = filter (satisfies cfg) (rows df)"
    using ne r lm by (intro rows_getitem_mask_filter) auto
  moreover have "columns (getitem_mask df ?m) = columns df"
    by (auto simp: columns_def getitem_mask_def)
  ultimately show ?thesis using out by simp
qed

lemma map_of_setitem: "map_of (setitem df c vs) c' = (if c' = c then Some vs else map_of df c')"
  by (simp add: setitem_def update_conv')

lemma len_setitem:
  "df \<noteq> [] \<Longrightarrow> length vs = len_frame df \<Longrightarrow> len_frame (setitem df c vs) = len_frame df"
  by (cases df) (auto simp: len_frame_def setitem_def)

lemma set_setitem: "set (setitem df c vs) \<subseteq> set df \<union> {(c, vs)}"
  unfolding setitem_def by (induction df) auto

lemma rect_setitem:
  assumes "rect df" "df \<noteq> []" "length vs = len_frame df"
  shows "rect (setitem df c vs)"
  using assms set_setitem [of df c vs]
  by (auto simp: rect_def list_all_iff len_setitem)

lemma setitem_nonempty: "setitem df c vs \<noteq> []"
  by (cases df) (auto simp: setitem_def)

lemma dt_stamps: "dt (stamps ts) = Inr ts"
  unfolding dt_def stamps_def
  by (rule each_Inr_I) (auto simp: list_all2_conv_all_nth split: option.splits)

lemma to_datetime_length: "to_datetime p mode vs = Inr ts \<Longrightarrow> length ts = length vs"
  unfolding to_datetime_def by (drule each_Inr_D) (simp add: list_all2_lengthD)

lemma derive_eq:
  "derive pdate ptime df =
     (case map_of df ''Date'' of
        None \<Rightarrow> Inl (KeyError ''Date'')
      | Some raw \<Rightarrow>
         (case to_datetime pdate Raise raw of
            Inl e \<Rightarrow> Inl e
          | Inr parsed \<Rightarrow>
             (case map_of df ''Time'' of
                None \<Rightarrow> Inl (KeyError ''Time'')
              | Some tm \<Rightarrow>
                 (case to_datetime ptime Coerce tm of
                    Inl e \<Rightarrow> Inl e
                  | Inr clock \<Rightarrow> Inr (derived df parsed clock)))))"
  by (simp add: derive_def and_then_def getitem_def Let_def map_of_setitem dt_stamps derived_def
           split: option.splits sum.splits)

lemma to_datetime_stamps: "to_datetime p mode (stamps ts) = Inr ts"
  unfolding to_datetime_def stamps_def
  by (rule each_Inr_I) (auto simp: list_all2_conv_all_nth split: option.splits)

lemma setitem_same: "map_of df c = Some vs \<Longrightarrow> setitem df c vs = df"
  by (simp add: setitem_def update_triv)

lemma derived_lookup:
  "map_of (derived df parsed clock) c =
     (if c = ''Weekday'' then Some (dt_day_name parsed)
      else if c = ''Hour'' then Some (dt_hour clock)
      else if c = ''Month'' then Some (dt_month parsed)
      else if c = ''Year'' then Some (dt_year parsed)
      else if c = ''Date'' then Some (stamps parsed)
      else map_of df c)"
  by (simp add: derived_def map_of_setitem)

lemma derived_again: "derived (derived df parsed clock) parsed clock = derived df parsed clock"
proof -
  let ?d = "derived df parsed clock"
  have "derived ?d parsed clock =
     setitem (setitem (setitem (setitem (setitem ?d ''Date'' (stamps parsed))
       ''Year'' (dt_year parsed)) ''Month'' (dt_month parsed)) ''Hour'' (dt_hour clock))
       ''Weekday'' (dt_day_name parsed)"
    by (simp only: derived_def [of ?d])
  also have "setitem ?d ''Date'' (stamps parsed) = ?d"
    by (rule setitem_same) (simp add: derived_lookup)
  also have "setitem ?d ''Year'' (dt_year parsed) = ?d"
    by (rule setitem_same) (simp add: derived_lookup)
  also have "setitem ?d ''Month'' (dt_month parsed) = ?d"
    by (rule setitem_same) (simp add: derived_lookup)
  also have "setitem ?d ''Hour'' (dt_hour clock) = ?d"
    by (rule setitem_same) (simp add: derived_lookup)
  also have "setitem ?d ''Weekday'' (dt_day_name parsed) = ?d"
    by (rule setitem_same) (simp add: derived_lookup)
  finally show ?thesis .
qed

text \<open>
  Claim C7. The derivation step is idempotent: when it returns a table, applying it to that
  table returns the same table again, so the year, month, hour and weekday columns (and
  every other column) are the same after the second application as after the first.
\<close>

theorem derive_idempotent:
  assumes "derive pdate ptime df = Inr df'"
  shows "derive pdate ptime df' = Inr df'"
proof -
  from assms obtain raw parsed tm clock where
    raw: "map_of df ''Date'' = Some raw" and parsed: "to_datetime pdate Raise raw = Inr parsed" and
    tm: "map_of df ''Time'' = Some tm" and clock: "to_datetime ptime Coerce tm = Inr clock" and
    df': "df' = derived df parsed clock"
    by (auto simp: derive_eq split: option.splits sum.splits)
  have "derive pdate ptime df' = Inr (derived df' parsed clock)"
    by (simp add: derive_eq df' derived_lookup to_datetime_stamps tm clock)
  then show ?thesis by (simp add: df' derived_again)
qed

theorem derive_idempotent_witness:
  "derive iso_date hh_mm merged_fx = Inr canonical_fx \<and>
   derive iso_date hh_mm canonical_fx = Inr canonical_fx"
proof -
  have h: "derive iso_date hh_mm merged_fx = Inr canonical_fx" by code_simp
  show ?thesis by (intro conjI h derive_idempotent [OF h])
qed

lemma merge_rect:
  assumes "pd_merge left right on = Inr out"
  shows "rect out \<and> out \<noteq> []"
proof -
  from assms obtain lk rk where lk: "map_of left on = Some lk" and rk: "map_of right on = Some rk"
    and out: "out = zip (llabels left right on)
                       (map (\<lambda>(c, vs). take_rows (map fst (join_pairs lk rk)) vs) left) @
                    zip (rlabels left right on)
                       (map (\<lambda>(c, vs). take_rows (map snd (join_pairs lk rk)) vs) (drop_key on right))"
    by (auto simp: pd_merge_def Let_def split: option.splits if_splits)
  from lk obtain p rest where left: "left = p # rest" by (cases left) auto
  have len: "len_frame out = length (join_pairs lk rk)"
    by (auto simp: out left len_frame_def llabels_def columns_def take_rows_def split: prod.splits)
  have "length vs = length (join_pairs lk rk)" if "(c, vs) \<in> set out" for c vs
    using that unfolding out by (auto simp: take_rows_def dest!: set_zip_rightD)
  then have "rect out" by (auto simp: rect_def list_all_iff len)
  moreover have "out \<noteq> []" by (simp add: out left llabels_def columns_def)
  ultimately show ?thesis ..
qed

lemma rect_derived:
  assumes "rect df" "df \<noteq> []" "length parsed = len_frame df" "length clock = len_frame df"
  shows "rect (derived df parsed clock) \<and> len_frame (derived df parsed clock) = len_frame df"
  using assms unfolding derived_def
  by (simp add: rect_setitem len_setitem setitem_nonempty stamps_def dt_year_def dt_month_def
        dt_hour_def dt_day_name_def)

lemma load_data_Inr:
  assumes "load_data pdate ptime accidents bikers = Inr df"
  shows "\<exists>m raw parsed tm clock.
           pd_merge accidents bikers ''Accident_Index'' = Inr m \<and>
           map_of m ''Date'' = Some raw \<and> to_datetime pdate Raise raw = Inr parsed \<and>
           map_of m ''Time'' = Some tm \<and> to_datetime ptime Coerce tm = Inr clock \<and>
           df = derived m parsed clock"
  using assms
  by (auto simp: load_data_def and_then_def derive_eq split: option.splits sum.splits)

lemma load_data_shape:
  assumes "load_data pdate ptime accidents bikers = Inr df"
  shows "rect df \<and> (\<exists>ys. map_of df ''Year'' = Some ys \<and> (\<forall>c \<in> set ys. c = NA \<or> (\<exists>v. c = Num v)))"
proof -
  from load_data_Inr [OF assms] obtain m raw parsed tm clock where
    m: "pd_merge accidents bikers ''Accident_Index'' = Inr m" and
    raw: "map_of m ''Date'' = Some raw" and parsed: "to_datetime pdate Raise raw = Inr parsed" and
    tm: "map_of m ''Time'' = Some tm" and clock: "to_datetime ptime Coerce tm = Inr clock" and
    df: "df = derived m parsed clock"
    by blast
  from merge_rect [OF m] have rm: "rect m" and ne: "m \<noteq> []" by simp_all
  have "length parsed = len_frame m"
    using to_datetime_length [OF parsed] rect_column_length [OF rm raw] by simp
  moreover have "length clock = len_frame m"
    using to_datetime_length [OF clock] rect_column_length [OF rm tm] by simp
  ultimately have "rect df" using rm ne by (simp add: df rect_derived)
  moreover have "map_of df ''Year'' = Some (dt_year parsed)"
    by (simp add: df derived_lookup)
  moreover have "\<forall>c \<in> set (dt_year parsed). c = NA \<or> (\<exists>v. c = Num v)"
    by (auto simp: dt_year_def split: option.splits)
  ultimately show ?thesis by blast
qed

lemma canonical_filtered_rows:
  assumes "load_data pdate ptime accidents bikers = Inr df" "has_dimensions df"
  shows "\<exists>out. filtered cfg df = Inr out \<and> rows out = filter (satisfies cfg) (rows df)
           \<and> columns out = columns df"
proof -
  from load_data_shape [OF assms(1)] obtain ys where "rect df" "map_of df ''Year'' = Some ys"
    "\<And>c. c \<in> set ys \<Longrightarrow> c = NA \<or> (\<exists>v. c = Num v)" by blast
  then show ?thesis using assms(2) by (rule filtered_rows)
qed


lemma satisfies_dimensions:
  "satisfies cfg r \<longleftrightarrow>
     year_within cfg r \<and> (\<forall>p \<in> set (dimensions cfg). selected (fst p) (snd p) r)"
  by (simp add: satisfies_def dimensions_def)

text \<open>
  Claim C1. On every canonical table that has the four categorical columns, and for every
  filter configuration, the filter returns a table whose rows are exactly the rows of the
  canonical table, in order, that satisfy every constraint: a row is in the output if and
  only if it is a row of the canonical table, its year lies within the inclusive range, and
  its severity, gender, weather and age group are each in the selected list.
\<close>

theorem filter_conjunction:
  assumes "load_data pdate ptime accidents bikers = Inr df" "has_dimensions df"
  shows "\<exists>out. filtered cfg df = Inr out \<and>
           rows out = filter (satisfies cfg) (rows df) \<and>
           (\<forall>r. r \<in> set (rows out) \<longleftrightarrow>
                r \<in> set (rows df) \<and> year_within cfg r \<and>
                selected ''Severity'' (severity cfg) r \<and>
                selected ''Gender'' (gender_filter cfg) r \<and>
                selected ''Weather_conditions'' (weather cfg) r \<and>
                selected ''Age_Grp'' (age_groups cfg) r)"
proof -
  from canonical_filtered_rows [OF assms] obtain out where
    out: "filtered cfg df = Inr out" and rws: "rows out = filter (satisfies cfg) (rows df)"
    by blast
  have "r \<in> set (rows out) \<longleftrightarrow>
          r \<in> set (rows df) \<and> year_within cfg r \<and>
          selected ''Severity'' (severity cfg) r \<and>
          selected ''Gender'' (gender_filter cfg) r \<and>
          selected ''Weather_conditions'' (weather cfg) r \<and>
          selected ''Age_Grp'' (age_groups cfg) r" for r
    by (simp add: rws satisfies_def)
  with out rws show ?thesis by blast
qed

theorem filter_conjunction_witness:
  "load_data iso_date hh_mm accidents_fx bikers_fx = Inr canonical_fx \<and>
   has_dimensions canonical_fx \<and>
   (\<exists>out. filtered all_fx canonical_fx = Inr out \<and>
           rows out = filter (satisfies all_fx) (rows canonical_fx) \<and>
           (\<forall>r. r \<in> set (rows out) \<longleftrightarrow>
                r \<in> set (rows canonical_fx) \<and> year_within all_fx r \<and>
                selected ''Severity'' (severity all_fx) r \<and>
                selected ''Gender'' (gender_filter all_fx) r \<and>
                selected ''Weather_conditions'' (weather all_fx) r \<and>
                selected ''Age_Grp'' (age_groups all_fx) r))"
proof -
  have h1: "load_data iso_date hh_mm accidents_fx bikers_fx = Inr canonical_fx" by code_simp
  have h2: "has_dimensions canonical_fx" by code_simp
  show ?thesis
    by (intro conjI h1 h2 filter_conjunction [OF h1 h2])
qed



lemma ball_split_one: "q \<in> S \<Longrightarrow> (\<forall>p \<in> S. P p) \<longleftrightarrow> P q \<and> (\<forall>p \<in> S. p \<noteq> q \<longrightarrow> P p)"
  by auto

text \<open>
  Claim C8. A row of the canonical table with a missing value in a filtered dimension is
  not in the filter's output unless the missing value is itself in that dimension's
  selected list; when it is, the row is in the output exactly if it meets the year range
  and the other dimensions.
\<close>

theorem null_dimension_excluded:
  assumes "load_data pdate ptime accidents bikers = Inr df" "has_dimensions df"
    and "(c, sel) \<in> set (dimensions cfg)" "r \<in> set (rows df)" "map_of r c = Some NA"
  shows "\<exists>out. filtered cfg df = Inr out \<and>
           (NA \<notin> set sel \<longrightarrow> r \<notin> set (rows out)) \<and>
           (r \<in> set (rows out) \<longleftrightarrow>
              NA \<in> set sel \<and> year_within cfg r \<and>
              (\<forall>p \<in> set (dimensions cfg). p \<noteq> (c, sel) \<longrightarrow> selected (fst p) (snd p) r))"
proof -
  from canonical_filtered_rows [OF assms(1,2)] obtain out where
    out: "filtered cfg df = Inr out" and rws: "rows out = filter (satisfies cfg) (rows df)"
    by blast
  have sel: "selected c sel r \<longleftrightarrow> NA \<in> set sel"
    using assms(5) by (simp add: selected_def)
  have mem: "r \<in> set (rows out) \<longleftrightarrow> satisfies cfg r"
    using assms(4) by (simp add: rws)
  have one: "(\<forall>p \<in> set (dimensions cfg). selected (fst p) (snd p) r) \<longleftrightarrow>
               selected c sel r \<and>
               (\<forall>p \<in> set (dimensions cfg). p \<noteq> (c, sel) \<longrightarrow> selected (fst p) (snd p) r)"
    using ball_split_one [OF assms(3), of "\<lambda>p. selected (fst p) (snd p) r"] by simp
  have "r \<in> set (rows out) \<longleftrightarrow>
              NA \<in> set sel \<and> year_within cfg r \<and>
              (\<forall>p \<in> set (dimensions cfg). p \<noteq> (c, sel) \<longrightarrow> selected (fst p) (snd p) r)"
    unfolding mem satisfies_dimensions one sel by blast
  then show ?thesis using out by blast
qed

theorem null_dimension_excluded_witness:
  "load_data iso_date hh_mm accidents_fx bikers_fx = Inr canonical_fx \<and>
   has_dimensions canonical_fx \<and>
   (''Weather_conditions'', [Str ''Clear'', Str ''Rain'']) \<in> set (dimensions all_fx) \<and>
   row_at canonical_fx 1 \<in> set (rows canonical_fx) \<and>
   map_of (row_at canonical_fx 1) ''Weather_conditions'' = Some NA \<and>
   NA \<notin> set [Str ''Clear'', Str ''Rain''] \<and>
   (\<exists>out. filtered all_fx canonical_fx = Inr out \<and> row_at canonical_fx 1 \<notin> set (rows out))"
proof -
  have h1: "load_data iso_date hh_mm accidents_fx bikers_fx = Inr canonical_fx" by code_simp
  have h2: "has_dimensions canonical_fx" by code_simp
  have h3: "(''Weather_conditions'', [Str ''Clear'', Str ''Rain'']) \<in> set (dimensions all_fx)"
    by (simp add: dimensions_def all_fx_def)
  have h4: "row_at canonical_fx 1 \<in> set (rows canonical_fx)"
    by (simp add: rows_def len_frame_def canonical_fx_def)
  have h5: "map_of (row_at canonical_fx 1) ''Weather_conditions'' = Some NA"
    by (simp add: row_at_def canonical_fx_def)
  have h6: "NA \<notin> set [Str ''Clear'', Str ''Rain'']" by simp
  from null_dimension_excluded [OF h1 h2 h3 h4 h5] h6
  have "\<exists>out. filtered all_fx canonical_fx = Inr out \<and> row_at canonical_fx 1 \<notin> set (rows out)"
    by blast
  with h1 h2 h3 h4 h5 h6 show ?thesis by blast
qed

section \<open>Parse failures during the load\<close>





lemma to_datetime_raise_readable:
  assumes "to_datetime p Raise vs = Inr ts"
  shows "\<forall>c \<in> set vs. \<not> unreadable p c"
proof
  fix c assume "c \<in> set vs"
  then obtain i where i: "i < length vs" and c: "c = vs ! i" by (auto simp: in_set_conv_nth)
  from each_Inr_D [OF assms [unfolded to_datetime_def]] i
  have "to_datetime_cell p Raise (vs ! i) = Inr (ts ! i)"
    by (simp add: list_all2_conv_all_nth)
  then show "\<not> unreadable p c" by (simp add: unreadable_def c)
qed


lemma getitem_Inr: "getitem df c = Inr vs \<longleftrightarrow> map_of df c = Some vs"
  by (simp add: getitem_def split: option.splits)




lemma to_datetime_cell_none: "to_datetime_cell p Raise c = Inr t \<Longrightarrow> (t = None) = (c = NA)"
  by (cases c; cases "p c") auto

lemma null_iff_missing:
  assumes "to_datetime p Raise raw = Inr parsed"
    and "\<And>t. (g t = NA) = (t = None)"
  shows "list_all2 (\<lambda>c y. (y = NA) = (c = NA)) raw (map g parsed)"
proof -
  from each_Inr_D [OF assms(1) [unfolded to_datetime_def]]
  have "list_all2 (\<lambda>c t. to_datetime_cell p Raise c = Inr t) raw parsed" .
  then have "list_all2 (\<lambda>c t. (g t = NA) = (c = NA)) raw parsed"
    by (rule list_all2_mono) (simp add: assms(2) to_datetime_cell_none)
  then show ?thesis by (simp add: list_all2_map2)
qed

text \<open>
  Claim C10, as amended. In every canonical table that the load returns, no date of the
  joined table was unreadable (an unreadable date aborts the load), and the year, month and
  weekday of a row are missing exactly when the date of that row is missing in the source.
\<close>

theorem date_fields_null_iff_date_missing:
  assumes "load_data pdate ptime accidents bikers = Inr df"
  shows "\<exists>m raw ys ms ws.
           pd_merge accidents bikers ''Accident_Index'' = Inr m \<and>
           getitem m ''Date'' = Inr raw \<and>
           (\<forall>c \<in> set raw. \<not> unreadable pdate c) \<and>
           getitem df ''Year'' = Inr ys \<and> list_all2 (\<lambda>c y. (y = NA) = (c = NA)) raw ys \<and>
           getitem df ''Month'' = Inr ms \<and> list_all2 (\<lambda>c y. (y = NA) = (c = NA)) raw ms \<and>
           getitem df ''Weekday'' = Inr ws \<and> list_all2 (\<lambda>c y. (y = NA) = (c = NA)) raw ws"
proof -
  from load_data_Inr [OF assms] obtain m raw parsed tm clock where
    m: "pd_merge accidents bikers ''Accident_Index'' = Inr m" and
    raw: "map_of m ''Date'' = Some raw" and parsed: "to_datetime pdate Raise raw = Inr parsed" and
    df: "df = derived m parsed clock"
    by blast
  have y: "list_all2 (\<lambda>c y. (y = NA) = (c = NA)) raw (dt_year parsed)"
    unfolding dt_year_def by (rule null_iff_missing [OF parsed]) (simp split: option.splits)
  have mo: "list_all2 (\<lambda>c y. (y = NA) = (c = NA)) raw (dt_month parsed)"
    unfolding dt_month_def by (rule null_iff_missing [OF parsed]) (simp split: option.splits)
  have w: "list_all2 (\<lambda>c y. (y = NA) = (c = NA)) raw (dt_day_name parsed)"
    unfolding dt_day_name_def by (rule null_iff_missing [OF parsed]) (simp split: option.splits)
  have g: "getitem m ''Date'' = Inr raw" using raw by (simp add: getitem_Inr)
  have cols: "getitem df ''Year'' = Inr (dt_year parsed)"
    "getitem df ''Month'' = Inr (dt_month parsed)"
    "getitem df ''Weekday'' = Inr (dt_day_name parsed)"
    by (simp_all add: getitem_def df derived_lookup)
  from m g to_datetime_raise_readable [OF parsed] cols y mo w show ?thesis by blast
qed

theorem date_fields_null_iff_date_missing_witness:
  "load_data iso_date hh_mm accidents_gap_fx bikers_fx = Inr canonical_gap_fx \<and>
   (\<exists>m raw ys ms ws.
           pd_merge accidents_gap_fx bikers_fx ''Accident_Index'' = Inr m \<and>
           getitem m ''Date'' = Inr raw \<and>
           (\<forall>c \<in> set raw. \<not> unreadable iso_date c) \<and>
           getitem canonical_gap_fx ''Year'' = Inr ys \<and> list_all2 (\<lambda>c y. (y = NA) = (c = NA)) raw ys \<and>
           getitem canonical_gap_fx ''Month'' = Inr ms \<and> list_all2 (\<lambda>c y. (y = NA) = (c = NA)) raw ms \<and>
           getitem canonical_gap_fx ''Weekday'' = Inr ws \<and> list_all2 (\<lambda>c y. (y = NA) = (c = NA)) raw ws)"
proof -
  have h: "load_data iso_date hh_mm accidents_gap_fx bikers_fx = Inr canonical_gap_fx"
    by code_simp
  show ?thesis by (intro conjI h date_fields_null_iff_date_missing [OF h])
qed

text \<open>
  Claim C10 as stated fails: a source row without a date is loaded, and its year, month and
  weekday are missing values.
\<close>

theorem missing_date_gives_null_year:
  "load_data iso_date hh_mm accidents_gap_fx bikers_fx = Inr canonical_gap_fx \<and>
   getitem canonical_gap_fx ''Year'' = Inr [Num 2009, NA] \<and>
   getitem canonical_gap_fx ''Month'' = Inr [Num 5, NA] \<and>
   getitem canonical_gap_fx ''Weekday'' = Inr [Str ''Friday'', NA]"
  by code_simp

section \<open>Aggregates over an empty table\<close>

lemma len_getitem_mask_empty: "len_frame f = 0 \<Longrightarrow> len_frame (getitem_mask f m) = 0"
  by (cases f) (auto simp: len_frame_def getitem_mask_def select_rows_def)

lemma count_severity_empty:
  assumes "len_frame f = 0" "''Severity'' \<in> set (columns f)"
  shows "count_severity f s = Inr 0"
proof -
  from column_present [OF assms(2)] obtain sv where "map_of f ''Severity'' = Some sv" ..
  then show ?thesis
    by (simp add: count_severity_def and_then_def getitem_def len_getitem_mask_empty assms(1))
qed

lemma mean_empty: "mean [] = Inr None"
  by (simp add: mean_def and_then_def present_def)

lemma empty_table_metrics:
  assumes "len_frame f = 0" "''Severity'' \<in> set (columns f)"
  shows "dashboard_metrics f =
           Inr \<lparr>total = 0, fatal = 0, serious = 0, fatality_rate = 0, avg_casualties = Some 0\<rparr>"
  using assms(1) count_severity_empty [OF assms]
  by (simp add: dashboard_metrics_def and_then_def)

section \<open>Counts reindexed against a known domain\<close>

lemma map_of_insort_key:
  "fst x \<notin> fst ` set xs \<Longrightarrow>
     map_of (insort_key f x xs) k = (if k = fst x then Some (snd x) else map_of xs k)"
  by (induction xs) (auto simp: rev_image_eqI)

lemma map_of_sort_key:
  "distinct (map fst xs) \<Longrightarrow> map_of (sort_key f xs) k = map_of xs k"
proof (induction xs)
  case Nil
  then show ?case by simp
next
  case (Cons x xs)
  then have fresh: "fst x \<notin> fst ` set (sort_key f xs)" by simp
  have "map_of (sort_key f (x # xs)) k = map_of (insort_key f x (sort_key f xs)) k" by simp
  also have "\<dots> = (if k = fst x then Some (snd x) else map_of (sort_key f xs) k)"
    using fresh by (rule map_of_insort_key)
  also have "\<dots> = map_of (x # xs) k" using Cons by (cases x) auto
  finally show ?case .
qed

lemma unique_props: "set (unique vs) = set vs \<and> distinct (unique vs)"
  by (simp add: unique_def)

lemma map_of_tabulate: "map_of (map (\<lambda>k. (k, g k)) ks) k = (if k \<in> set ks then Some (g k) else None)"
  by (induction ks) auto

lemma value_counts_lookup: "map_of (value_counts vs) k = expected_counts vs k"
proof -
  let ?ks = "unique (filter (\<lambda>c. c \<noteq> NA) vs)"
  have "distinct (map fst (map (\<lambda>k. (k, count_list vs k)) ?ks))"
    by (simp add: comp_def unique_props)
  then have "map_of (value_counts vs) k = map_of (map (\<lambda>k. (k, count_list vs k)) ?ks) k"
    unfolding value_counts_def by (rule map_of_sort_key)
  then show ?thesis
    by (auto simp: map_of_tabulate unique_props expected_counts_def)
qed

lemma reindex_value_counts:
  "reindex (value_counts vs) order = map (\<lambda>k. (k, expected_counts vs k)) order"
  by (simp add: reindex_def value_counts_lookup)

lemma reindex_without_fill:
  assumes "getitem df ''Severity'' = Inr sv" "getitem f ''Weekday'' = Inr wd"
  shows "severity_counts df = Inr (map (\<lambda>k. (k, expected_counts sv k)) severity_order) \<and>
         weekday f = Inr (map (\<lambda>k. (k, expected_counts wd k)) day_order) \<and>
         (\<forall>k. k \<notin> set sv \<longrightarrow> expected_counts sv k = None) \<and>
         (\<forall>k. k \<notin> set wd \<longrightarrow> expected_counts wd k = None)"
  using assms
  by (simp add: severity_counts_def weekday_def and_then_def reindex_value_counts
        expected_counts_def)

section \<open>The rows of the join\<close>

lemma columns_drop_key: "columns (drop_key on right) = filter (\<lambda>c. c \<noteq> on) (columns right)"
  by (induction right) (auto simp: columns_def drop_key_def)

lemma llabels_suffixed: "llabels left right on = map (suffixed_left right on) (columns left)"
  unfolding llabels_def
  by (rule map_cong) (auto simp: with_suffix_def suffixed_left_def overlap_def columns_drop_key)

lemma rlabels_suffixed:
  "rlabels left right on = map (suffixed_right left) (filter (\<lambda>c. c \<noteq> on) (columns right))"
  unfolding rlabels_def columns_drop_key
  by (rule map_cong) (auto simp: with_suffix_def suffixed_right_def overlap_def columns_drop_key)

lemma set_join_pairs:
  "set (join_pairs lk rk) = {(i, j). i < length lk \<and> j < length rk \<and> lk ! i = rk ! j}"
  by (auto simp: join_pairs_def)

lemma distinct_concat_map:
  assumes "distinct xs" "\<And>x. x \<in> set xs \<Longrightarrow> distinct (f x)"
    and "\<And>x y. x \<in> set xs \<Longrightarrow> y \<in> set xs \<Longrightarrow> x \<noteq> y \<Longrightarrow> set (f x) \<inter> set (f y) = {}"
  shows "distinct (concat (map f xs))"
  using assms
proof (induction xs)
  case Nil
  then show ?case by simp
next
  case (Cons x xs)
  have "set (f x) \<inter> set (f y) = {}" if "y \<in> set xs" for y
    using Cons.prems(3) [of x y] Cons.prems(1) that by auto
  then have "set (f x) \<inter> \<Union> (set ` f ` set xs) = {}" by blast
  moreover have "distinct (concat (map f xs))"
    using Cons by simp
  ultimately show ?case using Cons.prems(2) by simp
qed

lemma distinct_join_pairs: "distinct (join_pairs lk rk)"
  unfolding join_pairs_def
  by (rule distinct_concat_map) (auto simp: distinct_map inj_on_def)

lemma take_rows_fst: "take_rows (map fst ps) vs = map (\<lambda>(i, j). vs ! i) ps"
  by (simp add: take_rows_def case_prod_beta)

lemma take_rows_snd: "take_rows (map snd ps) vs = map (\<lambda>(i, j). vs ! j) ps"
  by (simp add: take_rows_def case_prod_beta)

lemma zip_labels: "zip (map g (columns df)) (map (\<lambda>(c, vs). h vs) df) = map (\<lambda>(c, vs). (g c, h vs)) df"
  by (induction df) (auto simp: columns_def)

lemma map_of_labelled:
  assumes "distinct (map g (columns df))" "(c, vs) \<in> set df"
  shows "map_of (map (\<lambda>(c, vs). (g c, h vs)) df) (g c) = Some (h vs)"
proof -
  have "map fst (map (\<lambda>(c, vs). (g c, h vs)) df) = map g (columns df)"
    by (induction df) (auto simp: columns_def)
  with assms(1) have "distinct (map fst (map (\<lambda>(c, vs). (g c, h vs)) df))" by simp
  moreover have "(g c, h vs) \<in> set (map (\<lambda>(c, vs). (g c, h vs)) df)"
    using assms(2) by force
  ultimately show ?thesis by (rule map_of_is_SomeI)
qed

lemma suffixed_left_key: "suffixed_left right on on = on"
  by (simp add: suffixed_left_def)

lemma suffixed_right_not_key:
  assumes "c \<noteq> ''Accident_Index''"
  shows "suffixed_right left c \<noteq> ''Accident_Index''"
proof (cases "c \<in> set (columns left)")
  case True
  have "c @ ''_y'' \<noteq> ''Accident_Index''"
  proof
    assume "c @ ''_y'' = ''Accident_Index''"
    then have "rev (c @ ''_y'') = rev ''Accident_Index''" by (rule arg_cong)
    then show False by simp
  qed
  with True show ?thesis by (simp add: suffixed_right_def)
next
  case False
  with assms show ?thesis by (simp add: suffixed_right_def)
qed

lemma key_not_in_right_labels:
  "''Accident_Index'' \<notin> set (map (suffixed_right left) (filter (\<lambda>c. c \<noteq> ''Accident_Index'') cs))"
proof (induction cs)
  case Nil
  then show ?case by simp
next
  case (Cons c cs)
  show ?case
  proof (cases "c = ''Accident_Index''")
    case True
    with Cons show ?thesis by simp
  next
    case False
    from suffixed_right_not_key [OF False, of left] Cons False show ?thesis
      by simp
  qed
qed

text \<open>
  Claim C5, as amended. Whenever the join of the two source tables on \<^verbatim>\<open>Accident_Index\<close>
  returns, its rows are the pairs of a left row and a right row with equal key cells, each
  pair once, where two missing keys are equal: the key of every output row occurs in the
  key column of both sources, as a value or as a missing value on both sides. Every left
  column is in the output with the cells of the paired left rows, under its own name or,
  when the right table has a column of that name, with the suffix \<^verbatim>\<open>_x\<close>; every right column
  other than the key is in the output with the cells of the paired right rows, under its
  own name or with the suffix \<^verbatim>\<open>_y\<close>, provided that name is not also the name of a
  left-hand column of the output. The columns are the left ones followed by the right ones
  without the key, and exactly one column is named \<^verbatim>\<open>Accident_Index\<close>.
\<close>

theorem joiner_pairs_rows_of_equal_key:
  assumes "pd_merge left right ''Accident_Index'' = Inr out"
  shows "\<exists>lk rk pairs.
           getitem left ''Accident_Index'' = Inr lk \<and>
           getitem right ''Accident_Index'' = Inr rk \<and>
           distinct pairs \<and>
           set pairs = {(i, j). i < length lk \<and> j < length rk \<and> lk ! i = rk ! j} \<and>
           getitem out ''Accident_Index'' = Inr (map (\<lambda>(i, j). lk ! i) pairs) \<and>
           map (\<lambda>(i, j). lk ! i) pairs = map (\<lambda>(i, j). rk ! j) pairs \<and>
           (\<forall>(c, vs) \<in> set left.
              getitem out (suffixed_left right ''Accident_Index'' c) =
                Inr (map (\<lambda>(i, j). vs ! i) pairs)) \<and>
           (\<forall>(c, vs) \<in> set right.
              c \<noteq> ''Accident_Index'' \<and>
              suffixed_right left c \<notin> suffixed_left right ''Accident_Index'' ` set (columns left) \<longrightarrow>
              getitem out (suffixed_right left c) = Inr (map (\<lambda>(i, j). vs ! j) pairs)) \<and>
           columns out =
             map (suffixed_left right ''Accident_Index'') (columns left) @
             map (suffixed_right left) (filter (\<lambda>c. c \<noteq> ''Accident_Index'') (columns right)) \<and>
           count_list (columns out) ''Accident_Index'' = 1 \<and>
           (\<forall>r \<in> set (rows out).
              \<exists>k. map_of r ''Accident_Index'' = Some k \<and> k \<in> set lk \<and> k \<in> set rk)"
proof -
  let ?k = "''Accident_Index''"
  let ?L = "suffixed_left right ?k" and ?R = "suffixed_right left"
  from assms obtain lk rk where lk: "map_of left ?k = Some lk" and rk: "map_of right ?k = Some rk"
    and dl: "distinct (llabels left right ?k)" and dr: "distinct (rlabels left right ?k)"
    and out: "out = zip (llabels left right ?k)
                       (map (\<lambda>(c, vs). take_rows (map fst (join_pairs lk rk)) vs) left) @
                    zip (rlabels left right ?k)
                       (map (\<lambda>(c, vs). take_rows (map snd (join_pairs lk rk)) vs) (drop_key ?k right))"
    by (auto simp: pd_merge_def Let_def split: option.splits if_splits)
  let ?ps = "join_pairs lk rk"
  let ?lpart = "map (\<lambda>(c, vs). (?L c, map (\<lambda>(i, j). vs ! i) ?ps)) left"
  let ?rpart = "map (\<lambda>(c, vs). (?R c, map (\<lambda>(i, j). vs ! j) ?ps)) (drop_key ?k right)"
  have cdk: "columns (drop_key ?k right) = filter (\<lambda>c. c \<noteq> ?k) (columns right)"
    by (rule columns_drop_key)
  have out': "out = ?lpart @ ?rpart"
    unfolding out llabels_suffixed rlabels_suffixed cdk [symmetric]
    by (simp add: zip_labels take_rows_fst take_rows_snd)
  have dl': "distinct (map ?L (columns left))" using dl by (simp add: llabels_suffixed)
  have dr': "distinct (map ?R (columns (drop_key ?k right)))"
    using dr by (simp add: rlabels_suffixed cdk)
  have left_cells: "getitem out (?L c) = Inr (map (\<lambda>(i, j). vs ! i) ?ps)"
    if "(c, vs) \<in> set left" for c vs
  proof -
    have "map_of ?lpart (?L c) = Some (map (\<lambda>(i, j). vs ! i) ?ps)"
      using dl' that by (rule map_of_labelled)
    then show ?thesis by (simp add: getitem_def out')
  qed
  have right_cells: "getitem out (?R c) = Inr (map (\<lambda>(i, j). vs ! j) ?ps)"
    if "(c, vs) \<in> set right" "c \<noteq> ?k" "?R c \<notin> ?L ` set (columns left)" for c vs
  proof -
    have "(c, vs) \<in> set (drop_key ?k right)" using that(1,2) by (simp add: drop_key_def)
    with dr' have "map_of ?rpart (?R c) = Some (map (\<lambda>(i, j). vs ! j) ?ps)"
      by (rule map_of_labelled)
    moreover have "map_of ?lpart (?R c) = None"
      using that(3) by (force simp: map_of_eq_None_iff columns_def)
    ultimately show ?thesis by (simp add: getitem_def out' map_add_def)
  qed
  have key_in_left: "(?k, lk) \<in> set left" using lk by (rule map_of_SomeD)
  have Lk: "?L ?k = ?k" by (simp add: suffixed_left_def)
  have key_col: "getitem out ?k = Inr (map (\<lambda>(i, j). lk ! i) ?ps)"
    using left_cells [OF key_in_left] by (simp add: Lk)
  have same: "map (\<lambda>(i, j). lk ! i) ?ps = map (\<lambda>(i, j). rk ! j) ?ps"
    by (rule map_cong) (auto simp: set_join_pairs)
  have cols: "columns out = map ?L (columns left) @ map ?R (filter (\<lambda>c. c \<noteq> ?k) (columns right))"
    by (simp add: out' columns_def cdk [unfolded columns_def, symmetric] comp_def case_prod_beta)
  have kin: "?k \<in> set (columns left)"
    using lk by (auto simp: columns_def dest: map_of_SomeD intro: rev_image_eqI)
  have in_l: "?k \<in> set (map ?L (columns left))"
    using imageI [OF kin, of ?L] by (simp only: Lk set_map)
  have not_r: "?k \<notin> set (map ?R (filter (\<lambda>c. c \<noteq> ?k) (columns right)))"
    by (rule key_not_in_right_labels)
  have cnt: "count_list (columns out) ?k = 1"
    using dl' in_l not_r by (simp add: cols count_list_distinct)
  have sub: "set (map (\<lambda>(i, j). lk ! i) ?ps) \<subseteq> set lk \<inter> set rk"
  proof
    fix v assume "v \<in> set (map (\<lambda>(i, j). lk ! i) ?ps)"
    then obtain i j where ij: "(i, j) \<in> set ?ps" and v: "v = lk ! i" by auto
    from join_pairs_sound [OF ij] have a: "i < length lk" and b: "j < length rk"
      and c: "lk ! i = rk ! j" by blast+
    have "lk ! i \<in> set lk" using a by (rule nth_mem)
    moreover have "lk ! i \<in> set rk" unfolding c using b by (rule nth_mem)
    ultimately show "v \<in> set lk \<inter> set rk" unfolding v by blast
  qed
  have len: "len_frame out = length ?ps"
    using merge_len [OF assms lk rk] .
  have rws: "\<forall>r \<in> set (rows out). \<exists>k. map_of r ?k = Some k \<and> k \<in> set lk \<and> k \<in> set rk"
  proof
    fix r assume "r \<in> set (rows out)"
    then obtain n where n: "n < length ?ps" and r: "r = row_at out n"
      by (auto simp: rows_def len)
    from key_col have "map_of out ?k = Some (map (\<lambda>(i, j). lk ! i) ?ps)"
      by (simp add: getitem_Inr)
    then have "map_of r ?k = Some (map (\<lambda>(i, j). lk ! i) ?ps ! n)"
      by (simp add: r map_of_row_at)
    moreover have "map (\<lambda>(i, j). lk ! i) ?ps ! n \<in> set (map (\<lambda>(i, j). lk ! i) ?ps)"
      using n by (intro nth_mem) simp
    ultimately show "\<exists>k. map_of r ?k = Some k \<and> k \<in> set lk \<and> k \<in> set rk"
      using sub by blast
  qed
  have l: "getitem left ?k = Inr lk" and r: "getitem right ?k = Inr rk"
    using lk rk by (simp_all add: getitem_def)
  have lc: "\<forall>(c, vs) \<in> set left. getitem out (?L c) = Inr (map (\<lambda>(i, j). vs ! i) ?ps)"
    using left_cells by blast
  have rc: "\<forall>(c, vs) \<in> set right. c \<noteq> ?k \<and> ?R c \<notin> ?L ` set (columns left) \<longrightarrow>
              getitem out (?R c) = Inr (map (\<lambda>(i, j). vs ! j) ?ps)"
    using right_cells by blast
  show ?thesis
    apply (rule exI [of _ lk], rule exI [of _ rk], rule exI [of _ ?ps])
    apply (intro conjI l r distinct_join_pairs set_join_pairs key_col same lc rc cols cnt rws)
    done
qed

theorem joiner_pairs_rows_of_equal_key_witness:
  "pd_merge accidents_day_fx bikers_day_fx ''Accident_Index'' = Inr merged_day_fx \<and>
   suffixed_left bikers_day_fx ''Accident_Index'' ''Day'' = ''Day_x'' \<and>
   suffixed_right accidents_day_fx ''Day'' = ''Day_y'' \<and>
   getitem merged_day_fx ''Day_x'' = Inr [Num 5, Num 6, Num 6] \<and>
   getitem merged_day_fx ''Day_y'' = Inr [Num 8, Num 7, Num 9] \<and>
   (\<exists>lk rk pairs.
           getitem accidents_day_fx ''Accident_Index'' = Inr lk \<and>
           getitem bikers_day_fx ''Accident_Index'' = Inr rk \<and>
           distinct pairs \<and>
           set pairs = {(i, j). i < length lk \<and> j < length rk \<and> lk ! i = rk ! j} \<and>
           getitem merged_day_fx ''Accident_Index'' = Inr (map (\<lambda>(i, j). lk ! i) pairs) \<and>
           map (\<lambda>(i, j). lk ! i) pairs = map (\<lambda>(i, j). rk ! j) pairs \<and>
           (\<forall>(c, vs) \<in> set accidents_day_fx.
              getitem merged_day_fx (suffixed_left bikers_day_fx ''Accident_Index'' c) =
                Inr (map (\<lambda>(i, j). vs ! i) pairs)) \<and>
           (\<forall>(c, vs) \<in> set bikers_day_fx.
              c \<noteq> ''Accident_Index'' \<and>
              suffixed_right accidents_day_fx c \<notin>
                suffixed_left bikers_day_fx ''Accident_Index'' ` set (columns accidents_day_fx) \<longrightarrow>
              getitem merged_day_fx (suffixed_right accidents_day_fx c) =
                Inr (map (\<lambda>(i, j). vs ! j) pairs)) \<and>
           columns merged_day_fx =
             map (suffixed_left bikers_day_fx ''Accident_Index'') (columns accidents_day_fx) @
             map (suffixed_right accidents_day_fx)
               (filter (\<lambda>c. c \<noteq> ''Accident_Index'') (columns bikers_day_fx)) \<and>
           count_list (columns merged_day_fx) ''Accident_Index'' = 1 \<and>
           (\<forall>r \<in> set (rows merged_day_fx).
              \<exists>k. map_of r ''Accident_Index'' = Some k \<and> k \<in> set lk \<and> k \<in> set rk))"
proof -
  have h: "pd_merge accidents_day_fx bikers_day_fx ''Accident_Index'' = Inr merged_day_fx"
    by code_simp
  have l: "suffixed_left bikers_day_fx ''Accident_Index'' ''Day'' = ''Day_x''" by code_simp
  have r: "suffixed_right accidents_day_fx ''Day'' = ''Day_y''" by code_simp
  have x: "getitem merged_day_fx ''Day_x'' = Inr [Num 5, Num 6, Num 6]" by code_simp
  have y: "getitem merged_day_fx ''Day_y'' = Inr [Num 8, Num 7, Num 9]" by code_simp
  show ?thesis
    by (intro conjI h l r x y joiner_pairs_rows_of_equal_key [OF h])
qed

text \<open>
  Claim C5 as stated fails: when accident identifiers are missing on both sides, the rows
  without an identifier are joined with each other, and the output has rows that carry no
  accident identifier at all.
\<close>

theorem missing_keys_are_joined:
  "pd_merge accidents_nokey_fx bikers_nokey_fx ''Accident_Index'' =
     Inr [(''Accident_Index'', [Str ''A1'', NA, NA]),
          (''Severity'', [Str ''Fatal'', Str ''Slight'', Str ''Slight'']),
          (''Gender'', [Str ''Female'', Str ''Male'', Str ''Other''])]"
  by code_simp

section \<open>The statistics tab on an empty table\<close>

lemma time_patterns_fx:
  "time_patterns canonical_fx =
     Inr \<lparr>peak_hour = 8, peak_month = ''Mar'', peak_day = Str ''Friday'',
          safest_day = Str ''Friday''\<rparr>"
  by code_simp

lemma time_patterns_empty:
  assumes "getitem f ''Hour'' = Inr []"
  shows "time_patterns f = Inl ValueError"
  using assms
  by (simp add: time_patterns_def and_then_def groupby_size_def present_def idxmax_def)

text \<open>
  Claim C4, evaluated on the table that the filter returns when no severity is selected.
  The headline metrics are defined there (the counts, the fatality rate and the mean of
  casualties are all 0), but the time patterns of the statistics tab raise: the peak hour
  is taken with \<^verbatim>\<open>idxmax\<close> over a grouping without entries, and this statement has no guard
  for the empty table as the metrics have.
\<close>

theorem empty_table_time_patterns_raise:
  "filtered none_fx canonical_fx = Inr empty_fx \<and>
   len_frame empty_fx = 0 \<and>
   dashboard_metrics empty_fx =
     Inr \<lparr>total = 0, fatal = 0, serious = 0, fatality_rate = 0, avg_casualties = Some 0\<rparr> \<and>
   time_patterns empty_fx = Inl ValueError"
  by code_simp

section \<open>The bar labels of the severity chart\<close>

text \<open>
  Claim C6, evaluated on the canonical table of the worked input, which has no serious
  accident. The reindexed severity counts hold an undefined value for that label where the
  claim asks for the count 0, and the bar labels, which convert every count with \<^verbatim>\<open>int\<close>,
  raise.
\<close>

theorem absent_severity_breaks_bar_labels:
  "severity_counts canonical_fx =
     Inr [(Str ''Fatal'', Some 1), (Str ''Serious'', None), (Str ''Slight'', Some 1)] \<and>
   severity_bar_labels canonical_fx = Inl ValueError"
  by code_simp

end
